theory Spec2Isabelle
  imports Main "HOL-Library.Sublist" "HOL-Library.Word"
begin

section \<open>External commands\<close>

text \<open>
  \<^verbatim>\<open>run_command(cmd, cwd, allow_fail)\<close> hands \<open>cmd\<close> to \<^verbatim>\<open>subprocess.run(..., check=True)\<close>.
  The process exits with a return code, or cannot be started because the program is missing
  (\<^verbatim>\<open>FileNotFoundError\<close>), or the call raises something else. A non-zero return code
  raises \<^verbatim>\<open>CalledProcessError\<close>. The two named exceptions are caught and raised again
  unless \<open>allow_fail\<close>; any other exception is not caught. What the process does belongs
  to the environment: the model takes it from a shell oracle \<open>sh\<close> (every call of the
  starter runs in the project root).
\<close>

datatype cmd_result = Exited int | NotFound | OtherFailure

datatype error = FileNotFoundError | CalledProcessError int | OtherException

type_synonym shell = "string list \<Rightarrow> cmd_result"

definition run_command :: "shell \<Rightarrow> string list \<Rightarrow> bool \<Rightarrow> error + bool" where
  "run_command sh cmd allow_fail =
     (case sh cmd of
        Exited rc \<Rightarrow>
          if rc = 0 then Inr True
          else if \<not> allow_fail then Inl (CalledProcessError rc)
          else Inr False
      | NotFound \<Rightarrow> (if \<not> allow_fail then Inl FileNotFoundError else Inr False)
      | OtherFailure \<Rightarrow> Inl OtherException)"

section \<open>Composition command builder\<close>

definition PROJECT_NAME :: string where
  "PROJECT_NAME = ''localai''"

text \<open>Python's truth value of a string: the empty string is false.\<close>

definition truthy :: "string \<Rightarrow> bool" where
  "truthy s = (s \<noteq> [])"

text \<open>The argument list that \<^verbatim>\<open>compose_down\<close> builds (lines 173 to 185).\<close>

definition compose_down_cmd :: "string \<Rightarrow> string \<Rightarrow> string list" where
  "compose_down_cmd profile environment =
     [''docker'', ''compose'', ''-p'', PROJECT_NAME]
     @ (if truthy profile \<and> profile \<noteq> ''none'' then [''--profile'', profile] else [])
     @ [''-f'', ''supabase/docker/docker-compose.yml'', ''-f'', ''docker-compose.yml'']
     @ (if environment = ''private'' then [''-f'', ''docker-compose.override.private.yml'']
        else if environment = ''public'' then
          [''-f'', ''docker-compose.override.public.yml'',
           ''-f'', ''docker-compose.override.public.supabase.yml'']
        else [])
     @ [''down'', ''--remove-orphans'']"

definition compose_down :: "shell \<Rightarrow> string \<Rightarrow> string \<Rightarrow> error + bool" where
  "compose_down sh profile environment =
     run_command sh (compose_down_cmd profile environment) True"

text \<open>The argument list that \<^verbatim>\<open>compose_up_supabase\<close> builds (lines 189 to 192).\<close>

definition compose_up_supabase_cmd :: "string \<Rightarrow> string list" where
  "compose_up_supabase_cmd environment =
     [''docker'', ''compose'', ''-p'', PROJECT_NAME, ''-f'', ''supabase/docker/docker-compose.yml'']
     @ (if environment = ''public'' then [''-f'', ''docker-compose.override.public.supabase.yml'']
        else [])
     @ [''up'', ''-d'']"

definition compose_up_supabase :: "shell \<Rightarrow> string \<Rightarrow> error + bool" where
  "compose_up_supabase sh environment =
     run_command sh (compose_up_supabase_cmd environment) False"

text \<open>The argument list that \<^verbatim>\<open>compose_up_local_ai\<close> builds (lines 196 to 203).\<close>

definition compose_up_local_ai_cmd :: "string \<Rightarrow> string \<Rightarrow> string list" where
  "compose_up_local_ai_cmd profile environment =
     [''docker'', ''compose'', ''-p'', PROJECT_NAME, ''-f'', ''docker-compose.yml'']
     @ (if environment = ''private'' then [''-f'', ''docker-compose.override.private.yml'']
        else if environment = ''public'' then [''-f'', ''docker-compose.override.public.yml'']
        else [])
     @ (if truthy profile \<and> profile \<noteq> ''none'' then [''--profile'', profile] else [])
     @ [''up'', ''-d'']"


text \<open>
  How the composition tool reads such an argument list: \<^verbatim>\<open>-p\<close>, \<^verbatim>\<open>-f\<close> and
  \<^verbatim>\<open>--profile\<close> each take the next argument as their value. \<open>compose_files\<close> collects
  the values of \<^verbatim>\<open>-f\<close> in order, \<open>compose_profiles\<close> those of \<^verbatim>\<open>--profile\<close>.
\<close>

fun compose_files :: "string list \<Rightarrow> string list" where
  "compose_files (opt # val # rest) =
     (if opt = ''-f'' then val # compose_files rest
      else if opt = ''-p'' \<or> opt = ''--profile'' then compose_files rest
      else compose_files (val # rest))"
| "compose_files _ = []"

fun compose_profiles :: "string list \<Rightarrow> string list" where
  "compose_profiles (opt # val # rest) =
     (if opt = ''--profile'' then val # compose_profiles rest
      else if opt = ''-p'' \<or> opt = ''-f'' then compose_profiles rest
      else compose_profiles (val # rest))"
| "compose_profiles _ = []"

text \<open>The choices that the argument parser of \<^verbatim>\<open>main\<close> admits (lines 221 and 222).\<close>

definition profile_choices :: "string list" where
  "profile_choices = [''cpu'', ''gpu-nvidia'', ''gpu-amd'', ''none'']"

definition environment_choices :: "string list" where
  "environment_choices = [''private'', ''public'']"

section \<open>Text primitives of the Python runtime\<close>

text \<open>
  A Python \<^verbatim>\<open>str\<close> is modelled as a \<^typ>\<open>string\<close>, one \<^typ>\<open>char\<close> per code point; the
  type covers the code points below 256, which includes every ASCII document. Files are
  modelled by their decoded text, as \<^verbatim>\<open>read_text\<close> and iteration over an open file deliver
  it (universal newlines: every line ends in a line feed, except possibly the last).
\<close>

definition NL :: char where
  "NL = CHR 0x0A"

text \<open>
  \<^verbatim>\<open>str.isspace\<close> on one character, which is also the class \<^verbatim>\<open>\s\<close> of \<^verbatim>\<open>re\<close> on
  \<^verbatim>\<open>str\<close> patterns: tab to carriage return, the four separators 0x1C to 0x1F, space,
  next line (0x85) and no-break space (0xA0).
\<close>

definition isspace :: "char \<Rightarrow> bool" where
  "isspace c =
     (let n = (of_char c :: nat)
      in (9 \<le> n \<and> n \<le> 13) \<or> (28 \<le> n \<and> n \<le> 32) \<or> n = 133 \<or> n = 160)"

text \<open>\<^verbatim>\<open>s.strip()\<close>, \<^verbatim>\<open>s.rstrip("\n")\<close>, \<^verbatim>\<open>s.startswith(p)\<close>.\<close>

definition str_strip :: "string \<Rightarrow> string" where
  "str_strip s = rev (dropWhile isspace (rev (dropWhile isspace s)))"

definition str_rstrip_nl :: "string \<Rightarrow> string" where
  "str_rstrip_nl s = rev (dropWhile (\<lambda>c. c = NL) (rev s))"

definition str_startswith :: "string \<Rightarrow> string \<Rightarrow> bool" where
  "str_startswith s p = prefix p s"

text \<open>
  \<^verbatim>\<open>s.split(sep, 1)\<close> for a one-character separator that occurs in \<open>s\<close>: the text before
  the first separator and the text after it.
\<close>

definition str_split1 :: "char \<Rightarrow> string \<Rightarrow> string \<times> string" where
  "str_split1 sep s = (takeWhile (\<lambda>c. c \<noteq> sep) s, drop 1 (dropWhile (\<lambda>c. c \<noteq> sep) s))"

text \<open>\<^verbatim>\<open>old in s\<close>: \<open>old\<close> occurs in \<open>s\<close> as a contiguous run.\<close>

fun str_in :: "string \<Rightarrow> string \<Rightarrow> bool" where
  "str_in old [] = (old = [])"
| "str_in old (c # cs) = (prefix old (c # cs) \<or> str_in old cs)"

text \<open>
  \<^verbatim>\<open>s.replace(old, new)\<close>: the occurrences of \<open>old\<close> are found from the left and do not
  overlap. For an empty \<open>old\<close> Python puts \<open>new\<close> before every character and at the end.
\<close>

function str_replace :: "string \<Rightarrow> string \<Rightarrow> string \<Rightarrow> string" where
  "str_replace old new s =
     (if old = [] then new @ concat (map (\<lambda>c. c # new) s)
      else if s = [] then []
      else if prefix old s then new @ str_replace old new (drop (length old) s)
      else hd s # str_replace old new (tl s))"
  by pat_completeness auto
termination
  by (relation "measure (\<lambda>(old, new, s). length s)") auto

text \<open>
  Iterating over an open text file: the lines with their line feeds, the last one possibly
  without.
\<close>

fun readlines :: "string \<Rightarrow> string list" where
  "readlines [] = []"
| "readlines (c # cs) =
     (if c = NL then [c] # readlines cs
      else (case readlines cs of [] \<Rightarrow> [[c]] | l # ls \<Rightarrow> (c # l) # ls))"

text \<open>
  \<^verbatim>\<open>s.splitlines()\<close>: the lines without their line breaks. A line break is a line feed,
  a carriage return (with a line feed right behind it counted in), a vertical tab, a form
  feed, one of the separators 0x1C to 0x1E, or next line (0x85); a break at the very end
  opens no further line.
\<close>

definition is_linebreak :: "char \<Rightarrow> bool" where
  "is_linebreak c =
     (let n = (of_char c :: nat) in (10 \<le> n \<and> n \<le> 13) \<or> (28 \<le> n \<and> n \<le> 30) \<or> n = 133)"

fun splitlines :: "string \<Rightarrow> string list" where
  "splitlines [] = []"
| "splitlines [c] = (if is_linebreak c then [[]] else [[c]])"
| "splitlines (c # d # cs) =
     (if c = CHR 0x0D \<and> d = CHR 0x0A then [] # splitlines cs
      else if is_linebreak c then [] # splitlines (d # cs)
      else (case splitlines (d # cs) of [] \<Rightarrow> [[c]] | l # ls \<Rightarrow> (c # l) # ls))"

section \<open>The files under the project root\<close>

text \<open>
  The files the starter reads and writes, each \<open>None\<close> when it does not exist:
  \<^verbatim>\<open>.env\<close>, \<^verbatim>\<open>supabase/docker/.env\<close> (and whether its directory exists),
  \<^verbatim>\<open>searxng/settings-base.yml\<close>, \<^verbatim>\<open>searxng/settings.yml\<close> and \<^verbatim>\<open>docker-compose.yml\<close>.
\<close>

record project =
  root_env :: "string option"
  supabase_docker_dir :: bool
  supabase_env :: "string option"
  settings_base :: "string option"
  settings :: "string option"
  compose_file :: "string option"

section \<open>Environment merger\<close>

text \<open>The test of lines 102 and 108, and the key and value of lines 103 and 109.\<close>

definition is_entry :: "string \<Rightarrow> bool" where
  "is_entry line = (CHR ''='' \<in> set line \<and> \<not> str_startswith (str_strip line) ''#'')"

definition entry_kv :: "string \<Rightarrow> string \<times> string" where
  "entry_kv line = str_split1 (CHR ''='') (str_rstrip_nl line)"

text \<open>The dictionary \<^verbatim>\<open>existing\<close> after the loop of lines 101 to 104.\<close>

fun read_existing :: "(string \<rightharpoonup> string) \<Rightarrow> string list \<Rightarrow> (string \<rightharpoonup> string)" where
  "read_existing existing [] = existing"
| "read_existing existing (line # rest) =
     read_existing
       (if is_entry line then (case entry_kv line of (k, v) \<Rightarrow> existing(k \<mapsto> v)) else existing)
       rest"

text \<open>The list \<^verbatim>\<open>additions\<close> after the loop of lines 107 to 111.\<close>

fun collect_additions :: "(string \<rightharpoonup> string) \<Rightarrow> string list \<Rightarrow> string list" where
  "collect_additions existing [] = []"
| "collect_additions existing (line # rest) =
     (if is_entry line \<and> existing (fst (entry_kv line)) = None
      then line # collect_additions existing rest
      else collect_additions existing rest)"

definition env_additions :: "string \<Rightarrow> string \<Rightarrow> string list" where
  "env_additions src dest =
     collect_additions (read_existing Map.empty (readlines dest)) (readlines src)"

definition ADDED_MARKER :: string where
  "ADDED_MARKER = NL # ''# Added from root .env'' @ [NL]"

text \<open>
  \<^verbatim>\<open>prepare_supabase_env\<close>. Copying into a directory that does not exist makes
  \<^verbatim>\<open>shutil.copyfile\<close> raise \<^verbatim>\<open>FileNotFoundError\<close>.
\<close>

definition prepare_supabase_env :: "project \<Rightarrow> error + project" where
  "prepare_supabase_env p =
     (case root_env p of
        None \<Rightarrow> Inr p
      | Some src \<Rightarrow>
          (case supabase_env p of
             None \<Rightarrow>
               if supabase_docker_dir p then Inr (p\<lparr>supabase_env := Some src\<rparr>)
               else Inl FileNotFoundError
           | Some dest \<Rightarrow>
               (let additions = env_additions src dest
                in if additions \<noteq> []
                   then Inr (p\<lparr>supabase_env := Some (dest @ ADDED_MARKER @ concat additions)\<rparr>)
                   else Inr p)))"

section \<open>Secret provisioner\<close>

text \<open>
  \<^verbatim>\<open>secrets.token_hex(nbytes)\<close> of the standard library draws \<open>nbytes\<close> bytes from the
  system's random source and writes each as two lowercase hexadecimal digits. The random
  source is the parameter \<open>rnd\<close>: the bytes it delivers, by position.
\<close>

type_synonym byte = "8 word"

definition hexdigit :: "nat \<Rightarrow> char" where
  "hexdigit n = ''0123456789abcdef'' ! (n mod 16)"

definition hexlify :: "byte list \<Rightarrow> string" where
  "hexlify bs = concat (map (\<lambda>b. [hexdigit (unat b div 16), hexdigit (unat b mod 16)]) bs)"

definition token_bytes :: "(nat \<Rightarrow> byte) \<Rightarrow> nat \<Rightarrow> byte list" where
  "token_bytes rnd nbytes = map rnd [0..<nbytes]"

definition token_hex :: "(nat \<Rightarrow> byte) \<Rightarrow> nat \<Rightarrow> string" where
  "token_hex rnd nbytes = hexlify (token_bytes rnd nbytes)"

definition PLACEHOLDER :: string where
  "PLACEHOLDER = ''ultrasecretkey''"

text \<open>\<^verbatim>\<open>generate_searxng_secret_key\<close>, with the random source of this run.\<close>

definition generate_searxng_secret_key :: "(nat \<Rightarrow> byte) \<Rightarrow> project \<Rightarrow> project" where
  "generate_searxng_secret_key rnd p =
     (case settings_base p of
        None \<Rightarrow> p
      | Some base \<Rightarrow>
          (let (p1, text) =
                 (case settings p of
                    None \<Rightarrow> (p\<lparr>settings := Some base\<rparr>, base)
                  | Some t \<Rightarrow> (p, t))
           in if \<not> str_in PLACEHOLDER text then p1
              else (let secret = token_hex rnd 32
                    in p1\<lparr>settings := Some (str_replace PLACEHOLDER secret text)\<rparr>)))"

section \<open>Regular expressions of the capability toggle\<close>

text \<open>
  The two patterns of \<^verbatim>\<open>adjust_cap_drop_first_run\<close> are sequences of three kinds of items:
  the anchor \<^verbatim>\<open>^\<close> under \<^verbatim>\<open>re.MULTILINE\<close>, a literal text, and the greedy \<^verbatim>\<open>\s*\<close>.
  (The parentheses of the active pattern only number a group, which the replacement text
  does not refer to.)
\<close>

datatype atom = LineStart | Lit string | Spaces

text \<open>
  Matching a sequence at one position, as the backtracking matcher of \<^verbatim>\<open>re\<close> does.
  \<open>prev\<close> is the character before the position (\<open>None\<close> at the start of the text); the
  result is the character before the end of the match and the text after it. \<^verbatim>\<open>\s*\<close>
  first tries to take one more white-space character and falls back to taking none.
\<close>

fun rx_match :: "atom list \<Rightarrow> char option \<Rightarrow> string \<Rightarrow> (char option \<times> string) option" where
  "rx_match [] prev s = Some (prev, s)"
| "rx_match (LineStart # rest) prev s =
     (if prev = None \<or> prev = Some NL then rx_match rest prev s else None)"
| "rx_match (Lit l # rest) prev s =
     (if prefix l s
      then rx_match rest (if l = [] then prev else Some (last l)) (drop (length l) s)
      else None)"
| "rx_match (Spaces # rest) prev [] = rx_match rest prev []"
| "rx_match (Spaces # rest) prev (c # cs) =
     (if isspace c
      then (case rx_match (Spaces # rest) (Some c) cs of
              Some r \<Rightarrow> Some r
            | None \<Rightarrow> rx_match rest prev (c # cs))
      else rx_match rest prev (c # cs))"

text \<open>\<^verbatim>\<open>pattern.search(text)\<close> as a truth value: the pattern matches at some position.\<close>

fun rx_search :: "atom list \<Rightarrow> char option \<Rightarrow> string \<Rightarrow> bool" where
  "rx_search pat prev [] = (rx_match pat prev [] \<noteq> None)"
| "rx_search pat prev (c # cs) = (rx_match pat prev (c # cs) \<noteq> None \<or> rx_search pat (Some c) cs)"

text \<open>
  \<^verbatim>\<open>pattern.sub(repl, text)\<close> for a replacement text without escapes: the matches are
  taken from the left and do not overlap; the text between them is copied. After an empty
  match the next character is copied and the scan goes on behind it.
\<close>

function rx_sub :: "atom list \<Rightarrow> string \<Rightarrow> char option \<Rightarrow> string \<Rightarrow> string" where
  "rx_sub pat repl prev s =
     (case rx_match pat prev s of
        Some (prev', s') \<Rightarrow>
          if length s' < length s then repl @ rx_sub pat repl prev' s'
          else (case s of [] \<Rightarrow> repl | c # cs \<Rightarrow> repl @ c # rx_sub pat repl (Some c) cs)
      | None \<Rightarrow> (case s of [] \<Rightarrow> [] | c # cs \<Rightarrow> c # rx_sub pat repl (Some c) cs))"
  by pat_completeness auto
termination
  by (relation "measure (\<lambda>(pat, repl, prev, s). length s)") auto

section \<open>Capability toggle manager\<close>

text \<open>Line 155: \<^verbatim>\<open>#\s*cap_drop:\s*- ALL\<close>. Line 156: \<^verbatim>\<open>(^\s*cap_drop:\s*- ALL)\<close>, multi-line.\<close>

definition commented_pattern :: "atom list" where
  "commented_pattern = [Lit ''#'', Spaces, Lit ''cap_drop:'', Spaces, Lit ''- ALL'']"

definition active_pattern :: "atom list" where
  "active_pattern = [LineStart, Spaces, Lit ''cap_drop:'', Spaces, Lit ''- ALL'']"

definition DISABLED_TEXT :: string where
  "DISABLED_TEXT = ''# cap_drop: - ALL  # temporarily disabled first run''"

definition ENABLED_TEXT :: string where
  "ENABLED_TEXT = ''cap_drop: - ALL''"

text \<open>
  What the runtime inspection delivers: the output of \<^verbatim>\<open>docker ps\<close> with the name
  filter, and for a container name the output of the probe command that \<^verbatim>\<open>docker exec\<close>
  runs inside it.
\<close>

record docker =
  ps_stdout :: string
  exec_stdout :: "string \<Rightarrow> string"

text \<open>Line 145: the stripped lines of the listing that are not empty.\<close>

definition running_containers :: "docker \<Rightarrow> string list" where
  "running_containers d =
     map str_strip (filter (\<lambda>c. truthy (str_strip c)) (splitlines (ps_stdout d)))"

text \<open>Lines 146 to 153.\<close>

definition first_run_of :: "docker \<Rightarrow> bool" where
  "first_run_of d =
     (case running_containers d of
        [] \<Rightarrow> True
      | name # _ \<Rightarrow> str_in ''missing'' (exec_stdout d name))"

text \<open>
  Lines 155 to 166 on the text of the composition document: the new text and the flag
  \<^verbatim>\<open>modified\<close>.
\<close>

definition toggle_cap_drop :: "bool \<Rightarrow> string \<Rightarrow> string \<times> bool" where
  "toggle_cap_drop first_run content =
     (if first_run \<and> rx_search active_pattern None content
      then (rx_sub active_pattern DISABLED_TEXT None content, True)
      else if \<not> first_run \<and> rx_search commented_pattern None content
      then (rx_sub commented_pattern ENABLED_TEXT None content, True)
      else (content, False))"

definition adjust_cap_drop_first_run :: "docker \<Rightarrow> project \<Rightarrow> project" where
  "adjust_cap_drop_first_run d p =
     (case compose_file p of
        None \<Rightarrow> p
      | Some content \<Rightarrow>
          (case toggle_cap_drop (first_run_of d) content of
             (content', modified) \<Rightarrow>
               if modified then p\<lparr>compose_file := Some content'\<rparr> else p))"

section \<open>Readiness prober\<close>

text \<open>
  One call of \<^verbatim>\<open>socket.create_connection((host, port), timeout=2)\<close> either connects, raises
  an \<^verbatim>\<open>OSError\<close> (refused, unreachable, timed out) or raises something else; it returns
  after some time. Both belong to the environment: the network oracle gives, for the host,
  the port and the number of the attempt, the outcome and the duration in milliseconds.
  Time passes in the connection attempts and in \<^verbatim>\<open>time.sleep\<close> only.
\<close>

datatype outcome = Connected | OSError | Raised

type_synonym network = "string \<Rightarrow> int \<Rightarrow> nat \<Rightarrow> outcome \<times> nat"

text \<open>
  The loop of lines 209 to 215, entered before attempt \<open>i\<close> with \<open>elapsed\<close> milliseconds
  gone since \<^verbatim>\<open>start\<close>; \<open>timeout\<close> is in seconds. The result is what the function returns
  or raises, and the milliseconds gone when it does.
\<close>

function wait_loop :: "(nat \<Rightarrow> outcome \<times> nat) \<Rightarrow> int \<Rightarrow> nat \<Rightarrow> nat \<Rightarrow> (error + bool) \<times> nat" where
  "wait_loop conn timeout i elapsed =
     (if int elapsed < 1000 * timeout
      then (case conn i of
              (Connected, d) \<Rightarrow> (Inr True, elapsed + d)
            | (OSError, d) \<Rightarrow> wait_loop conn timeout (Suc i) (elapsed + d + 2000)
            | (Raised, d) \<Rightarrow> (Inl OtherException, elapsed + d))
      else (Inr False, elapsed))"
  by pat_completeness auto
termination
  by (relation "measure (\<lambda>(conn, timeout, i, elapsed). nat (1000 * timeout - int elapsed))") auto

definition wait_for_postgres :: "network \<Rightarrow> string \<Rightarrow> int \<Rightarrow> int \<Rightarrow> (error + bool) \<times> nat" where
  "wait_for_postgres net host port timeout = wait_loop (net host port) timeout 0 0"

section \<open>Orchestration controller\<close>

text \<open>The parsed command line (lines 221 to 227).\<close>

record args =
  profile :: string
  environment :: string
  skip_clone :: bool
  no_cap_adjust :: bool
  wait_seconds :: int
  pg_port :: int



section \<open>Properties of the composition command builder\<close>

lemma compose_files_down:
  "compose_files (compose_down_cmd prof env) =
     [''supabase/docker/docker-compose.yml'', ''docker-compose.yml'']
     @ (if env = ''private'' then [''docker-compose.override.private.yml'']
        else if env = ''public'' then
          [''docker-compose.override.public.yml'', ''docker-compose.override.public.supabase.yml'']
        else [])"
  by (simp add: compose_down_cmd_def PROJECT_NAME_def truthy_def)

lemma compose_files_up_supabase:
  "compose_files (compose_up_supabase_cmd env) =
     ''supabase/docker/docker-compose.yml''
     # (if env = ''public'' then [''docker-compose.override.public.supabase.yml'']
        else [])"
  by (simp add: compose_up_supabase_cmd_def PROJECT_NAME_def)

lemma compose_files_up_local_ai:
  "compose_files (compose_up_local_ai_cmd prof env) =
     ''docker-compose.yml''
     # (if env = ''private'' then [''docker-compose.override.private.yml'']
        else if env = ''public'' then [''docker-compose.override.public.yml'']
        else [])"
  by (simp add: compose_up_local_ai_cmd_def PROJECT_NAME_def truthy_def)

lemma compose_profiles_up_supabase:
  "compose_profiles (compose_up_supabase_cmd env) = []"
  by (simp add: compose_up_supabase_cmd_def PROJECT_NAME_def)

lemma compose_profiles_up_local_ai:
  "compose_profiles (compose_up_local_ai_cmd prof env) =
     (if prof \<noteq> [] \<and> prof \<noteq> ''none'' then [prof] else [])"
  by (simp add: compose_up_local_ai_cmd_def PROJECT_NAME_def truthy_def)

lemma compose_files_base_in_down:
  "''supabase/docker/docker-compose.yml'' \<in> set (compose_files (compose_down_cmd prof env))
   \<and> ''docker-compose.yml'' \<in> set (compose_files (compose_down_cmd prof env))"
  by (simp add: compose_files_down)

text \<open>
  C1, as stated: the files of \<^verbatim>\<open>down\<close> for one environment would include the files of
  every startup of any environment. A teardown for \<open>private\<close> does not name the override
  file that the local startup for \<open>public\<close> uses.
\<close>

theorem compose_down_superset_counterexample:
  "\<not> set (compose_files (compose_up_local_ai_cmd ''cpu'' ''public''))
       \<subseteq> set (compose_files (compose_down_cmd ''cpu'' ''private''))"
  by (simp add: compose_files_down compose_files_up_local_ai)

text \<open>
  C1, amended: for every environment and every two profiles, the files of \<^verbatim>\<open>down\<close> for
  that environment include the files of the dependency startup and of the local startup
  for the same environment; whatever the environment and profile of \<^verbatim>\<open>down\<close>, its
  files include the base composition file of the dependency startup and of the local
  startup of every environment; and the override files of another environment are not
  among them: the two override files for \<open>public\<close> are absent unless the environment is
  \<open>public\<close>, the override file for \<open>private\<close> is absent unless it is \<open>private\<close>.
  Altogether the files of \<^verbatim>\<open>down\<close> are the two base files followed by the override
  files of its own environment.
\<close>

theorem compose_down_covers_same_environment:
  "set (compose_files (compose_up_supabase_cmd env))
     \<subseteq> set (compose_files (compose_down_cmd prof env))
   \<and> set (compose_files (compose_up_local_ai_cmd prof' env))
     \<subseteq> set (compose_files (compose_down_cmd prof env))
   \<and> hd (compose_files (compose_up_supabase_cmd env'))
     \<in> set (compose_files (compose_down_cmd prof env))
   \<and> hd (compose_files (compose_up_local_ai_cmd prof' env'))
     \<in> set (compose_files (compose_down_cmd prof env))
   \<and> (env \<noteq> ''public'' \<longrightarrow>
        ''docker-compose.override.public.yml''
          \<notin> set (compose_files (compose_down_cmd prof env))
      \<and> ''docker-compose.override.public.supabase.yml''
          \<notin> set (compose_files (compose_down_cmd prof env)))
   \<and> (env \<noteq> ''private'' \<longrightarrow>
        ''docker-compose.override.private.yml''
          \<notin> set (compose_files (compose_down_cmd prof env)))
   \<and> compose_files (compose_down_cmd prof env) =
        [''supabase/docker/docker-compose.yml'', ''docker-compose.yml'']
        @ (if env = ''private'' then [''docker-compose.override.private.yml'']
           else if env = ''public'' then
             [''docker-compose.override.public.yml'',
              ''docker-compose.override.public.supabase.yml'']
           else [])"
proof -
  have incl: "set (compose_files (compose_up_supabase_cmd env))
     \<subseteq> set (compose_files (compose_down_cmd prof env))
   \<and> set (compose_files (compose_up_local_ai_cmd prof' env))
     \<subseteq> set (compose_files (compose_down_cmd prof env))
   \<and> hd (compose_files (compose_up_supabase_cmd env'))
     \<in> set (compose_files (compose_down_cmd prof env))
   \<and> hd (compose_files (compose_up_local_ai_cmd prof' env'))
     \<in> set (compose_files (compose_down_cmd prof env))"
    by (auto simp: compose_files_down compose_files_up_supabase compose_files_up_local_ai)
  have excl: "(env \<noteq> ''public'' \<longrightarrow>
        ''docker-compose.override.public.yml''
          \<notin> set (compose_files (compose_down_cmd prof env))
      \<and> ''docker-compose.override.public.supabase.yml''
          \<notin> set (compose_files (compose_down_cmd prof env)))
   \<and> (env \<noteq> ''private'' \<longrightarrow>
        ''docker-compose.override.private.yml''
          \<notin> set (compose_files (compose_down_cmd prof env)))"
    by (simp add: compose_files_down)
  from incl excl show ?thesis
    using compose_files_down [of prof env] by blast
qed

theorem compose_down_covers_same_environment_witness:
  "''private'' \<noteq> ''public''
   \<and> set (compose_files (compose_up_supabase_cmd ''private''))
     \<subseteq> set (compose_files (compose_down_cmd ''none'' ''private''))
   \<and> set (compose_files (compose_up_local_ai_cmd ''gpu-amd'' ''private''))
     \<subseteq> set (compose_files (compose_down_cmd ''none'' ''private''))
   \<and> hd (compose_files (compose_up_supabase_cmd ''public''))
     \<in> set (compose_files (compose_down_cmd ''none'' ''private''))
   \<and> hd (compose_files (compose_up_local_ai_cmd ''gpu-amd'' ''public''))
     \<in> set (compose_files (compose_down_cmd ''none'' ''private''))
   \<and> ''docker-compose.override.public.yml''
       \<notin> set (compose_files (compose_down_cmd ''none'' ''private''))
   \<and> ''docker-compose.override.public.supabase.yml''
       \<notin> set (compose_files (compose_down_cmd ''none'' ''private''))"
proof -
  have ne: "''private'' \<noteq> ''public''" by simp
  with compose_down_covers_same_environment
    [of "''private''" "''none''" "''gpu-amd''" "''public''"]
  show ?thesis by blast
qed

text \<open>
  C8: the command of the dependency startup names the dependency project's composition file
  alone, followed by the one dependency-specific override file exactly when the environment
  is \<open>public\<close>, and carries no profile filter; the command of the local startup for
  \<open>public\<close> names the local composition file and exactly one override file, and for every
  profile the argument parser admits it carries the profile filter exactly when the profile
  is not \<open>none\<close>.
\<close>

theorem compose_up_commands:
  assumes "prof \<in> set profile_choices"
  shows "compose_files (compose_up_supabase_cmd env) =
           (if env = ''public''
            then [''supabase/docker/docker-compose.yml'',
                  ''docker-compose.override.public.supabase.yml'']
            else [''supabase/docker/docker-compose.yml''])
       \<and> compose_profiles (compose_up_supabase_cmd env) = []
       \<and> ''--profile'' \<notin> set (compose_up_supabase_cmd env)
       \<and> compose_files (compose_up_local_ai_cmd prof ''public'') =
           [''docker-compose.yml'', ''docker-compose.override.public.yml'']
       \<and> compose_profiles (compose_up_local_ai_cmd prof ''public'') =
           (if prof \<noteq> ''none'' then [prof] else [])"
proof -
  from assms have ne: "prof \<noteq> []"
    by (auto simp: profile_choices_def)
  have "''--profile'' \<notin> set (compose_up_supabase_cmd env)"
    by (simp add: compose_up_supabase_cmd_def PROJECT_NAME_def)
  moreover have "compose_profiles (compose_up_local_ai_cmd prof ''public'') =
           (if prof \<noteq> ''none'' then [prof] else [])"
    using ne by (simp add: compose_profiles_up_local_ai)
  ultimately show ?thesis
    by (simp add: compose_files_up_supabase compose_profiles_up_supabase
        compose_files_up_local_ai)
qed

theorem compose_up_commands_witness:
  "''gpu-nvidia'' \<in> set profile_choices
   \<and> compose_files (compose_up_supabase_cmd ''public'') =
       [''supabase/docker/docker-compose.yml'', ''docker-compose.override.public.supabase.yml'']
   \<and> compose_profiles (compose_up_supabase_cmd ''public'') = []
   \<and> ''--profile'' \<notin> set (compose_up_supabase_cmd ''public'')
   \<and> compose_files (compose_up_local_ai_cmd ''gpu-nvidia'' ''public'') =
       [''docker-compose.yml'', ''docker-compose.override.public.yml'']
   \<and> compose_profiles (compose_up_local_ai_cmd ''gpu-nvidia'' ''public'') = [''gpu-nvidia'']"
proof -
  have h: "''gpu-nvidia'' \<in> set profile_choices"
    by (simp add: profile_choices_def)
  show ?thesis
    using h compose_up_commands [OF h, of "''public''"] by simp
qed

section \<open>Properties of the secret provisioner\<close>

declare str_replace.simps [simp del]

lemma str_in_append_skip:
  "old \<noteq> [] \<Longrightarrow> hd old \<notin> set xs \<Longrightarrow> str_in old (xs @ r) = str_in old r"
  by (induction xs) (auto simp: prefix_Cons)

lemma prefix_str_replace:
  "old \<noteq> [] \<Longrightarrow> q \<noteq> [] \<Longrightarrow> last q \<notin> set new \<Longrightarrow> length q \<le> length new \<Longrightarrow>
   prefix q (str_replace old new s) \<Longrightarrow> prefix q s"
proof (induction old new s arbitrary: q rule: str_replace.induct)
  case (1 old new s)
  show ?case
  proof (cases "s = []")
    case True
    with 1 show ?thesis by (simp add: str_replace.simps)
  next
    case ne: False
    show ?thesis
    proof (cases "prefix old s")
      case True
      with 1 ne have "prefix q (new @ str_replace old new (drop (length old) s))"
        by (simp add: str_replace.simps)
      with \<open>length q \<le> length new\<close> have "prefix q new"
        by (auto simp: prefix_append dest: prefix_length_le)
      then have "set q \<subseteq> set new" by (rule set_mono_prefix)
      with \<open>q \<noteq> []\<close> \<open>last q \<notin> set new\<close> show ?thesis
        using last_in_set by blast
    next
      case False
      from ne obtain c cs where s: "s = c # cs" by (cases s) auto
      from 1 ne False s have p: "prefix q (c # str_replace old new cs)"
        by (simp add: str_replace.simps)
      from \<open>q \<noteq> []\<close> obtain q' where q: "q = c # q'" and p': "prefix q' (str_replace old new cs)"
        using p by (auto simp: prefix_Cons)
      show ?thesis
      proof (cases "q' = []")
        case True
        with q s show ?thesis by simp
      next
        case q'ne: False
        have "last q' \<notin> set new" using 1(5) q q'ne by simp
        moreover have "length q' \<le> length new" using 1(6) q by simp
        moreover have "prefix q' (str_replace old new (tl s))" using p' s by simp
        ultimately have "prefix q' (tl s)"
          using "1.IH"(2) [of q'] 1(3) ne False q'ne by blast
        with q s show ?thesis by simp
      qed
    qed
  qed
qed

lemma str_replace_removes:
  "old \<noteq> [] \<Longrightarrow> hd old \<notin> set new \<Longrightarrow> last old \<notin> set new \<Longrightarrow> length old \<le> length new \<Longrightarrow>
   \<not> str_in old (str_replace old new s)"
proof (induction old new s rule: str_replace.induct)
  case (1 old new s)
  show ?case
  proof (cases "s = []")
    case True
    with 1 show ?thesis by (simp add: str_replace.simps)
  next
    case ne: False
    show ?thesis
    proof (cases "prefix old s")
      case True
      with 1 ne have "\<not> str_in old (str_replace old new (drop (length old) s))"
        by simp
      moreover from 1 ne True have "str_replace old new s = new @ str_replace old new (drop (length old) s)"
        by (simp add: str_replace.simps)
      ultimately show ?thesis
        using 1 by (simp add: str_in_append_skip)
    next
      case False
      from ne obtain c cs where s: "s = c # cs" by (cases s) auto
      from 1 ne False s have eq: "str_replace old new s = c # str_replace old new cs"
        by (simp add: str_replace.simps)
      from 1 ne False s have ih: "\<not> str_in old (str_replace old new cs)"
        by simp
      have "\<not> prefix old (str_replace old new s)"
        using prefix_str_replace [of old old new s] 1 False by blast
      with eq ih show ?thesis by simp
    qed
  qed
qed

lemma hexdigit_in: "hexdigit n \<in> set ''0123456789abcdef''"
  unfolding hexdigit_def by (rule nth_mem) simp

lemma set_hexlify: "set (hexlify bs) \<subseteq> set ''0123456789abcdef''"
  unfolding hexlify_def using hexdigit_in by (induction bs) auto

lemma length_hexlify: "length (hexlify bs) = 2 * length bs"
  unfolding hexlify_def by (induction bs) auto

lemma length_token_hex: "length (token_hex rnd n) = 2 * n"
  by (simp add: token_hex_def token_bytes_def length_hexlify)

lemma set_token_hex: "set (token_hex rnd n) \<subseteq> set ''0123456789abcdef''"
  unfolding token_hex_def by (rule set_hexlify)

lemma placeholder_removed:
  "\<not> str_in PLACEHOLDER (str_replace PLACEHOLDER (token_hex rnd 32) text)"
proof (rule str_replace_removes)
  show "PLACEHOLDER \<noteq> []" by (simp add: PLACEHOLDER_def)
  show "hd PLACEHOLDER \<notin> set (token_hex rnd 32)"
    using set_token_hex [of rnd 32] by (auto simp: PLACEHOLDER_def)
  show "last PLACEHOLDER \<notin> set (token_hex rnd 32)"
    using set_token_hex [of rnd 32] by (auto simp: PLACEHOLDER_def)
  show "length PLACEHOLDER \<le> length (token_hex rnd 32)"
    by (simp add: length_token_hex PLACEHOLDER_def)
qed


lemma secret_without_placeholder: "\<not> str_in PLACEHOLDER (token_hex rnd 32)"
proof -
  have "hd PLACEHOLDER \<notin> set (token_hex rnd 32)"
    using set_token_hex [of rnd 32] by (auto simp: PLACEHOLDER_def)
  then have "str_in PLACEHOLDER (token_hex rnd 32 @ []) = str_in PLACEHOLDER []"
    by (intro str_in_append_skip) (simp add: PLACEHOLDER_def)
  then show ?thesis by (simp add: PLACEHOLDER_def)
qed

lemma generate_settings_clean:
  assumes "settings_base p = Some base"
  shows "\<exists>t. settings (generate_searxng_secret_key rnd p) = Some t \<and> \<not> str_in PLACEHOLDER t"
  using assms placeholder_removed
  by (cases "settings p") (auto simp: generate_searxng_secret_key_def Let_def)

lemma generate_skips:
  assumes "settings p = Some t" and "\<not> str_in PLACEHOLDER t"
  shows "generate_searxng_secret_key rnd p = p"
  using assms by (cases "settings_base p") (auto simp: generate_searxng_secret_key_def)

lemma generate_keeps_base:
  "settings_base (generate_searxng_secret_key rnd p) = settings_base p"
  by (cases "settings_base p"; cases "settings p")
     (auto simp: generate_searxng_secret_key_def Let_def)

lemma generate_twice:
  "generate_searxng_secret_key rnd2 (generate_searxng_secret_key rnd1 p) =
   generate_searxng_secret_key rnd1 p"
proof (cases "settings_base p")
  case None
  then show ?thesis by (simp add: generate_searxng_secret_key_def)
next
  case (Some base)
  from generate_settings_clean [OF Some, of rnd1] obtain t
    where "settings (generate_searxng_secret_key rnd1 p) = Some t" and "\<not> str_in PLACEHOLDER t"
    by blast
  then show ?thesis by (rule generate_skips)
qed

text \<open>
  C4: a second provisioning run, with whatever random source, leaves the project files as
  the first run left them. Where the first run found the placeholder in the working
  settings file, the file holds the text with the secret of the first run in place of the
  placeholder after both runs, and the placeholder is absent from it, so the second run
  takes the skipping branch of line 127 and writes no second secret.
\<close>

theorem secret_provisioning_idempotent:
  "generate_searxng_secret_key rnd2 (generate_searxng_secret_key rnd1 p) =
     generate_searxng_secret_key rnd1 p
   \<and> (settings_base p = Some base \<and> settings p = Some text \<and> str_in PLACEHOLDER text \<longrightarrow>
        settings (generate_searxng_secret_key rnd2 (generate_searxng_secret_key rnd1 p)) =
          Some (str_replace PLACEHOLDER (token_hex rnd1 32) text)
        \<and> \<not> str_in PLACEHOLDER (str_replace PLACEHOLDER (token_hex rnd1 32) text))"
proof -
  have "settings (generate_searxng_secret_key rnd1 p) =
          Some (str_replace PLACEHOLDER (token_hex rnd1 32) text)"
    if "settings_base p = Some base" "settings p = Some text" "str_in PLACEHOLDER text"
    using that by (simp add: generate_searxng_secret_key_def)
  then show ?thesis
    by (simp add: generate_twice placeholder_removed)
qed

theorem secret_provisioning_idempotent_witness:
  "settings_base \<lparr>root_env = None, supabase_docker_dir = False, supabase_env = None,
       settings_base = Some ''secret_key: ultrasecretkey'',
       settings = Some ''secret_key: ultrasecretkey'', compose_file = None\<rparr>
     = Some ''secret_key: ultrasecretkey''
   \<and> settings \<lparr>root_env = None, supabase_docker_dir = False, supabase_env = None,
       settings_base = Some ''secret_key: ultrasecretkey'',
       settings = Some ''secret_key: ultrasecretkey'', compose_file = None\<rparr>
     = Some ''secret_key: ultrasecretkey''
   \<and> str_in PLACEHOLDER ''secret_key: ultrasecretkey''
   \<and> settings (generate_searxng_secret_key (\<lambda>i. 0xA0)
        (generate_searxng_secret_key (\<lambda>i. 0x1F)
          \<lparr>root_env = None, supabase_docker_dir = False, supabase_env = None,
           settings_base = Some ''secret_key: ultrasecretkey'',
           settings = Some ''secret_key: ultrasecretkey'', compose_file = None\<rparr>))
     = Some (str_replace PLACEHOLDER (token_hex (\<lambda>i. 0x1F) 32) ''secret_key: ultrasecretkey'')"
  using secret_provisioning_idempotent
    [of "\<lambda>i. 0xA0" "\<lambda>i. 0x1F"
        "\<lparr>root_env = None, supabase_docker_dir = False, supabase_env = None,
          settings_base = Some ''secret_key: ultrasecretkey'',
          settings = Some ''secret_key: ultrasecretkey'', compose_file = None\<rparr>"
        "''secret_key: ultrasecretkey''" "''secret_key: ultrasecretkey''", THEN conjunct2]
  by (simp add: PLACEHOLDER_def)

lemma generate_many:
  "foldl (\<lambda>q r. generate_searxng_secret_key r q) (generate_searxng_secret_key rnd p) rnds =
   generate_searxng_secret_key rnd p"
  by (induction rnds) (simp_all add: generate_twice)

lemma str_in_self_append: "str_in new (new @ r)"
proof (cases "new @ r")
  case Nil
  then show ?thesis by simp
next
  case (Cons a l)
  have "prefix new (new @ r)" by simp
  then show ?thesis
    unfolding Cons by simp
qed

lemma str_replace_contains_new:
  "old \<noteq> [] \<Longrightarrow> str_in old s \<Longrightarrow> str_in new (str_replace old new s)"
proof (induction old new s rule: str_replace.induct)
  case (1 old new s)
  from "1.prems" obtain c cs where s: "s = c # cs"
    by (cases s) auto
  show ?case
  proof (cases "prefix old s")
    case True
    with "1.prems" s have "str_replace old new s = new @ str_replace old new (drop (length old) s)"
      by (simp add: str_replace.simps)
    then show ?thesis by (simp add: str_in_self_append)
  next
    case False
    with "1.prems" s have "str_in old (tl s)" by simp
    with "1.IH"(2) "1.prems" s False have "str_in new (str_replace old new (tl s))"
      by simp
    moreover from "1.prems" s False
    have "str_replace old new s = c # str_replace old new (tl s)"
      by (simp add: str_replace.simps)
    ultimately show ?thesis by simp
  qed
qed

lemma generate_writes_secret:
  assumes "settings_base p = Some base"
    and "str_in PLACEHOLDER (case settings p of None \<Rightarrow> base | Some t \<Rightarrow> t)"
  shows "settings (generate_searxng_secret_key rnd p) =
           Some (str_replace PLACEHOLDER (token_hex rnd 32)
                   (case settings p of None \<Rightarrow> base | Some t \<Rightarrow> t))"
  using assms by (cases "settings p") (simp_all add: generate_searxng_secret_key_def)

text \<open>
  C10: the generated secret has exactly 64 characters, all of them lowercase hexadecimal
  digits, and does not contain the placeholder. Where the base settings exist and the
  working text (the settings file, or the base settings when there is none yet) contains
  the placeholder, the provisioner writes that text with this very secret in place of
  every placeholder, so the secret occurs in the file. Once the base settings exist, the
  settings file after a provisioning run does not contain the placeholder, and any number
  of further runs, with any random sources, leaves the files as they are.
\<close>

theorem secret_never_reprovisioned:
  "length (token_hex rnd 32) = 64
   \<and> set (token_hex rnd 32) \<subseteq> set ''0123456789abcdef''
   \<and> \<not> str_in PLACEHOLDER (token_hex rnd 32)
   \<and> (settings_base p \<noteq> None \<longrightarrow>
        (\<exists>t. settings (generate_searxng_secret_key rnd p) = Some t \<and> \<not> str_in PLACEHOLDER t))
   \<and> foldl (\<lambda>q r. generate_searxng_secret_key r q) (generate_searxng_secret_key rnd p) rnds =
       generate_searxng_secret_key rnd p
   \<and> (settings_base p = Some base
        \<and> str_in PLACEHOLDER (case settings p of None \<Rightarrow> base | Some t \<Rightarrow> t) \<longrightarrow>
        settings (generate_searxng_secret_key rnd p) =
          Some (str_replace PLACEHOLDER (token_hex rnd 32)
                  (case settings p of None \<Rightarrow> base | Some t \<Rightarrow> t))
        \<and> str_in (token_hex rnd 32)
            (str_replace PLACEHOLDER (token_hex rnd 32)
               (case settings p of None \<Rightarrow> base | Some t \<Rightarrow> t)))"
proof -
  have old: "length (token_hex rnd 32) = 64
   \<and> set (token_hex rnd 32) \<subseteq> set ''0123456789abcdef''
   \<and> \<not> str_in PLACEHOLDER (token_hex rnd 32)
   \<and> (settings_base p \<noteq> None \<longrightarrow>
        (\<exists>t. settings (generate_searxng_secret_key rnd p) = Some t \<and> \<not> str_in PLACEHOLDER t))
   \<and> foldl (\<lambda>q r. generate_searxng_secret_key r q) (generate_searxng_secret_key rnd p) rnds =
       generate_searxng_secret_key rnd p"
    using generate_settings_clean [of p _ rnd]
    by (auto simp: length_token_hex set_token_hex secret_without_placeholder generate_many
        simp del: set_simps)
  have ne: "PLACEHOLDER \<noteq> []" by (simp add: PLACEHOLDER_def)
  have new: "settings (generate_searxng_secret_key rnd p) =
          Some (str_replace PLACEHOLDER (token_hex rnd 32)
                  (case settings p of None \<Rightarrow> base | Some t \<Rightarrow> t))
        \<and> str_in (token_hex rnd 32)
            (str_replace PLACEHOLDER (token_hex rnd 32)
               (case settings p of None \<Rightarrow> base | Some t \<Rightarrow> t))"
    if "settings_base p = Some base"
      and "str_in PLACEHOLDER (case settings p of None \<Rightarrow> base | Some t \<Rightarrow> t)"
    using that generate_writes_secret [of p base rnd] str_replace_contains_new [OF ne]
    by blast
  from old new show ?thesis by blast
qed

lemma secret_example:
  "str_replace PLACEHOLDER (token_hex (\<lambda>i. 0x1F) 32) ''secret_key: ultrasecretkey'' =
     ''secret_key: 1f1f1f1f1f1f1f1f1f1f1f1f1f1f1f1f1f1f1f1f1f1f1f1f1f1f1f1f1f1f1f1f''"
  by code_simp

theorem secret_never_reprovisioned_witness:
  "settings_base \<lparr>root_env = None, supabase_docker_dir = False, supabase_env = None,
       settings_base = Some ''secret_key: ultrasecretkey'', settings = None,
       compose_file = None\<rparr> = Some ''secret_key: ultrasecretkey''
   \<and> str_in PLACEHOLDER ''secret_key: ultrasecretkey''
   \<and> length (token_hex (\<lambda>i. 0x1F) 32) = 64
   \<and> \<not> str_in PLACEHOLDER (token_hex (\<lambda>i. 0x1F) 32)
   \<and> settings (generate_searxng_secret_key (\<lambda>i. 0x1F)
          \<lparr>root_env = None, supabase_docker_dir = False, supabase_env = None,
           settings_base = Some ''secret_key: ultrasecretkey'', settings = None,
           compose_file = None\<rparr>)
       = Some ''secret_key: 1f1f1f1f1f1f1f1f1f1f1f1f1f1f1f1f1f1f1f1f1f1f1f1f1f1f1f1f1f1f1f1f''
   \<and> foldl (\<lambda>q r. generate_searxng_secret_key r q)
        (generate_searxng_secret_key (\<lambda>i. 0x1F)
          \<lparr>root_env = None, supabase_docker_dir = False, supabase_env = None,
           settings_base = Some ''secret_key: ultrasecretkey'', settings = None,
           compose_file = None\<rparr>) [\<lambda>i. 0xA0, \<lambda>i. of_nat i] =
       generate_searxng_secret_key (\<lambda>i. 0x1F)
          \<lparr>root_env = None, supabase_docker_dir = False, supabase_env = None,
           settings_base = Some ''secret_key: ultrasecretkey'', settings = None,
           compose_file = None\<rparr>"
proof -
  let ?p = "\<lparr>root_env = None, supabase_docker_dir = False, supabase_env = None,
          settings_base = Some ''secret_key: ultrasecretkey'', settings = None,
          compose_file = None\<rparr>"
  let ?text = "case settings ?p of None \<Rightarrow> ''secret_key: ultrasecretkey'' | Some t \<Rightarrow> t"
  have sb: "settings_base ?p = Some ''secret_key: ultrasecretkey''" by simp
  have ph: "str_in PLACEHOLDER ''secret_key: ultrasecretkey''"
    by (simp add: PLACEHOLDER_def)
  have tx: "?text = ''secret_key: ultrasecretkey''" by simp
  note T = secret_never_reprovisioned
    [of "\<lambda>i. 0x1F" ?p "[\<lambda>i. 0xA0, \<lambda>i. of_nat i]" "''secret_key: ultrasecretkey''"]
  from T have len: "length (token_hex (\<lambda>i. 0x1F) 32) = 64"
    and clean: "\<not> str_in PLACEHOLDER (token_hex (\<lambda>i. 0x1F) 32)"
    and many: "foldl (\<lambda>q r. generate_searxng_secret_key r q)
        (generate_searxng_secret_key (\<lambda>i. 0x1F) ?p) [\<lambda>i. 0xA0, \<lambda>i. of_nat i] =
       generate_searxng_secret_key (\<lambda>i. 0x1F) ?p"
    and wr: "settings_base ?p = Some ''secret_key: ultrasecretkey'' \<and> str_in PLACEHOLDER ?text \<longrightarrow>
        settings (generate_searxng_secret_key (\<lambda>i. 0x1F) ?p) =
          Some (str_replace PLACEHOLDER (token_hex (\<lambda>i. 0x1F) 32) ?text)
        \<and> str_in (token_hex (\<lambda>i. 0x1F) 32)
            (str_replace PLACEHOLDER (token_hex (\<lambda>i. 0x1F) 32) ?text)"
    by blast+
  from ph have "str_in PLACEHOLDER ?text"
    unfolding tx .
  with wr sb have "settings (generate_searxng_secret_key (\<lambda>i. 0x1F) ?p) =
          Some (str_replace PLACEHOLDER (token_hex (\<lambda>i. 0x1F) 32) ?text)"
    by blast
  then have "settings (generate_searxng_secret_key (\<lambda>i. 0x1F) ?p) =
          Some ''secret_key: 1f1f1f1f1f1f1f1f1f1f1f1f1f1f1f1f1f1f1f1f1f1f1f1f1f1f1f1f1f1f1f1f''"
    unfolding tx secret_example .
  with sb ph len clean many show ?thesis
    by blast
qed

lemma token_hex_example:
  "token_hex (\<lambda>i. 0x1F) 4 = ''1f1f1f1f'' \<and> token_hex (\<lambda>i. of_nat (i * 37 + 250)) 4 = ''fa1f4469''"
  by code_simp

lemma generate_example:
  "settings (generate_searxng_secret_key (\<lambda>i. 0xA0)
      \<lparr>root_env = None, supabase_docker_dir = False, supabase_env = None,
       settings_base = Some ''k: ultrasecretkey'', settings = None, compose_file = None\<rparr>)
   = Some ''k: a0a0a0a0a0a0a0a0a0a0a0a0a0a0a0a0a0a0a0a0a0a0a0a0a0a0a0a0a0a0a0a0''"
  by code_simp

section \<open>Properties of the environment merger\<close>

lemma isspace_NL: "isspace NL"
  by (simp add: isspace_def NL_def)

lemma NL_not_eq: "NL \<noteq> CHR ''=''"
  by (simp add: NL_def)

lemma str_rstrip_nl_snoc: "str_rstrip_nl (l @ [NL]) = str_rstrip_nl l"
  by (simp add: str_rstrip_nl_def)

lemma str_strip_snoc: "str_strip (l @ [NL]) = str_strip l"
proof (cases "\<forall>c\<in>set l. isspace c")
  case True
  then show ?thesis
    by (auto simp: str_strip_def dropWhile_append isspace_NL dest: set_dropWhileD)
next
  case False
  then show ?thesis
    by (auto simp: str_strip_def dropWhile_append isspace_NL)
qed

lemma is_entry_snoc: "is_entry (l @ [NL]) = is_entry l"
  using NL_not_eq by (auto simp: is_entry_def str_strip_snoc)

lemma entry_kv_snoc: "entry_kv (l @ [NL]) = entry_kv l"
  by (simp add: entry_kv_def str_rstrip_nl_snoc)

lemma readlines_nonempty: "s \<noteq> [] \<Longrightarrow> readlines s \<noteq> []"
  by (cases s) (auto split: list.splits)

lemma readlines_Nil_iff: "readlines s = [] \<longleftrightarrow> s = []"
  by (cases s) (auto split: list.splits)

lemma readlines_split: "readlines (a @ NL # b) = readlines (a @ [NL]) @ readlines b"
proof (induction a)
  case Nil
  show ?case by simp
next
  case (Cons c a)
  have "readlines (a @ [NL]) \<noteq> []" by (rule readlines_nonempty) simp
  with Cons show ?case by (auto split: list.splits)
qed

lemma readlines_snoc:
  "readlines (a @ [NL]) =
     (if a = [] \<or> last a = NL then readlines a @ [[NL]]
      else butlast (readlines a) @ [last (readlines a) @ [NL]])"
proof (induction a)
  case Nil
  show ?case by simp
next
  case (Cons c a)
  show ?case
  proof (cases "a = []")
    case True
    then show ?thesis by simp
  next
    case False
    then have ne: "readlines a \<noteq> []" by (rule readlines_nonempty)
    then obtain l0 ls where rl: "readlines a = l0 # ls" by (cases "readlines a") auto
    show ?thesis
      using Cons False rl by (cases "ls = []") (auto split: list.splits)
  qed
qed

lemma readlines_terminated:
  "NL \<notin> set body \<Longrightarrow> readlines (body @ NL # rest) = (body @ [NL]) # readlines rest"
  by (induction body) auto

lemma readlines_partial:
  "NL \<notin> set body \<Longrightarrow> body \<noteq> [] \<Longrightarrow> readlines body = [body]"
proof (induction body)
  case Nil
  then show ?case by simp
next
  case (Cons c body)
  then show ?case
    by (cases "body = []") (auto split: list.splits)
qed


lemma set_butlast_last: "xs \<noteq> [] \<Longrightarrow> set xs = insert (last xs) (set (butlast xs))"
  by (induction xs) auto

definition is_line :: "string \<Rightarrow> bool" where
  "is_line l = (l \<noteq> [] \<and> NL \<notin> set (butlast l))"

fun lines_ok :: "string list \<Rightarrow> bool" where
  "lines_ok [] = True"
| "lines_ok [l] = is_line l"
| "lines_ok (l # ls) = (is_line l \<and> last l = NL \<and> lines_ok ls)"

lemma lines_ok_Cons:
  "lines_ok (l # ls) = (is_line l \<and> (ls \<noteq> [] \<longrightarrow> last l = NL) \<and> lines_ok ls)"
  by (cases ls) auto

lemma lines_ok_readlines: "lines_ok (readlines s)"
proof (induction s)
  case Nil
  show ?case by simp
next
  case (Cons c s)
  show ?case
  proof (cases "c = NL")
    case True
    with Cons show ?thesis by (simp add: lines_ok_Cons is_line_def)
  next
    case False
    show ?thesis
    proof (cases "readlines s")
      case Nil
      with False show ?thesis by (simp add: is_line_def)
    next
      case (Cons l0 ls)
      with Cons.IH False show ?thesis
        by (auto simp: lines_ok_Cons is_line_def)
    qed
  qed
qed

lemma lines_ok_filter: "lines_ok ls \<Longrightarrow> lines_ok (filter P ls)"
proof (induction ls)
  case Nil
  show ?case by simp
next
  case (Cons l ls)
  then show ?case
    by (auto simp: lines_ok_Cons)
qed

lemma readlines_line:
  assumes "is_line l" and "last l = NL"
  shows "readlines (l @ rest) = l # readlines rest"
proof -
  from assms have "l = butlast l @ [NL]" "NL \<notin> set (butlast l)"
    by (auto simp: is_line_def) (metis append_butlast_last_id)
  then show ?thesis
    using readlines_terminated [of "butlast l" rest] by (metis append.assoc append_Cons append_Nil)
qed

lemma readlines_concat: "lines_ok ls \<Longrightarrow> readlines (concat ls) = ls"
proof (induction ls)
  case Nil
  show ?case by simp
next
  case (Cons l ls)
  show ?case
  proof (cases "ls = []")
    case True
    with Cons.prems have l: "is_line l" by simp
    show ?thesis
    proof (cases "last l = NL")
      case True
      with l readlines_line [of l "[]"] \<open>ls = []\<close> show ?thesis by simp
    next
      case False
      from l have "l \<noteq> []" by (simp add: is_line_def)
      with l False have "NL \<notin> set l"
        by (auto simp: is_line_def set_butlast_last [of l])
      with \<open>l \<noteq> []\<close> have "NL \<notin> set l" "l \<noteq> []" by simp_all
      with \<open>ls = []\<close> show ?thesis by (simp add: readlines_partial)
    qed
  next
    case False
    with Cons show ?thesis
      by (simp add: lines_ok_Cons readlines_line)
  qed
qed


lemma read_existing_lookup:
  "read_existing m ls k = None \<longleftrightarrow>
     m k = None \<and> (\<forall>l\<in>set ls. is_entry l \<longrightarrow> fst (entry_kv l) \<noteq> k)"
  by (induction ls arbitrary: m) (auto split: prod.splits)

lemma collect_additions_filter:
  "collect_additions ex ls = filter (\<lambda>l. is_entry l \<and> ex (fst (entry_kv l)) = None) ls"
  by (induction ls) auto

lemma env_additions_filter:
  "env_additions src dest =
     filter (\<lambda>l. is_entry l \<and> (\<forall>d\<in>set (readlines dest). is_entry d \<longrightarrow> fst (entry_kv d) \<noteq> fst (entry_kv l)))
       (readlines src)"
  by (simp add: env_additions_def collect_additions_filter read_existing_lookup)

lemma env_additions_self: "env_additions src src = []"
  by (auto simp: env_additions_filter filter_empty_conv)

lemma marker_line:
  "readlines (''# Added from root .env'' @ NL # rest) =
     (''# Added from root .env'' @ [NL]) # readlines rest"
  by (rule readlines_terminated) (simp add: NL_def)

lemma readlines_merged:
  assumes "lines_ok adds"
  shows "readlines (dest @ ADDED_MARKER @ concat adds) =
           readlines (dest @ [NL]) @ [''# Added from root .env'' @ [NL]] @ adds"
proof -
  have "readlines (dest @ ADDED_MARKER @ concat adds) =
          readlines (dest @ [NL]) @ readlines (''# Added from root .env'' @ NL # concat adds)"
    using readlines_split [of dest "''# Added from root .env'' @ NL # concat adds"]
    by (simp add: ADDED_MARKER_def)
  also have "readlines (''# Added from root .env'' @ NL # concat adds) =
          (''# Added from root .env'' @ [NL]) # readlines (concat adds)"
    by (rule marker_line)
  also have "readlines (concat adds) = adds"
    using assms by (rule readlines_concat)
  finally show ?thesis by simp
qed

lemma entry_in_snoc:
  assumes "d \<in> set (readlines dest)" and "is_entry d"
  shows "\<exists>d'\<in>set (readlines (dest @ [NL])). is_entry d' \<and> entry_kv d' = entry_kv d"
proof (cases "dest = [] \<or> last dest = NL")
  case True
  with assms show ?thesis
    by (auto simp: readlines_snoc)
next
  case False
  then have ne: "readlines dest \<noteq> []" by (simp add: readlines_Nil_iff)
  show ?thesis
  proof (cases "d = last (readlines dest)")
    case True
    have "last (readlines dest) @ [NL] \<in> set (readlines (dest @ [NL]))"
      using False by (simp add: readlines_snoc)
    with True assms(2) show ?thesis
      using is_entry_snoc entry_kv_snoc by blast
  next
    case neq: False
    with assms(1) ne have "d \<in> set (butlast (readlines dest))"
      by (auto simp: set_butlast_last [of "readlines dest"])
    then have "d \<in> set (readlines (dest @ [NL]))"
      using False by (simp add: readlines_snoc)
    with assms(2) show ?thesis by blast
  qed
qed

lemma env_additions_merged:
  "env_additions src (dest @ ADDED_MARKER @ concat (env_additions src dest)) = []"
proof -
  let ?adds = "env_additions src dest"
  have ok: "lines_ok ?adds"
    unfolding env_additions_filter by (intro lines_ok_filter lines_ok_readlines)
  have rl: "readlines (dest @ ADDED_MARKER @ concat ?adds) =
              readlines (dest @ [NL]) @ [''# Added from root .env'' @ [NL]] @ ?adds"
    using ok by (rule readlines_merged)
  have "\<exists>d\<in>set (readlines (dest @ ADDED_MARKER @ concat ?adds)).
          is_entry d \<and> fst (entry_kv d) = fst (entry_kv l)"
    if l: "l \<in> set (readlines src)" "is_entry l" for l
  proof (cases "l \<in> set ?adds")
    case True
    with l rl show ?thesis by auto
  next
    case False
    with l obtain d where "d \<in> set (readlines dest)" "is_entry d"
      "fst (entry_kv d) = fst (entry_kv l)"
      by (auto simp: env_additions_filter)
    with entry_in_snoc [of d dest] obtain d' where
      "d' \<in> set (readlines (dest @ [NL]))" "is_entry d'" "entry_kv d' = entry_kv d"
      by blast
    with \<open>fst (entry_kv d) = fst (entry_kv l)\<close> rl show ?thesis by auto
  qed
  then show ?thesis
    unfolding env_additions_filter [of src "dest @ ADDED_MARKER @ concat ?adds"]
    by (auto simp: filter_empty_conv)
qed


lemma readlines_append_prefix:
  "prefix (map str_rstrip_nl (readlines dest)) (map str_rstrip_nl (readlines (dest @ NL # rest)))"
proof -
  have "prefix (map str_rstrip_nl (readlines dest)) (map str_rstrip_nl (readlines (dest @ [NL])))"
  proof (cases "dest = [] \<or> last dest = NL")
    case True
    then show ?thesis by (auto simp: readlines_snoc)
  next
    case False
    then have ne: "readlines dest \<noteq> []" by (simp add: readlines_Nil_iff)
    have "map str_rstrip_nl (butlast (readlines dest) @ [last (readlines dest) @ [NL]]) =
          map str_rstrip_nl (butlast (readlines dest) @ [last (readlines dest)])"
      by (simp add: str_rstrip_nl_snoc)
    also have "butlast (readlines dest) @ [last (readlines dest)] = readlines dest"
      using ne by simp
    finally show ?thesis
      using False by (simp add: readlines_snoc)
  qed
  then have "prefix (map str_rstrip_nl (readlines dest))
     (map str_rstrip_nl (readlines (dest @ [NL])) @ map str_rstrip_nl (readlines rest))"
    by (rule prefix_prefix)
  then show ?thesis
    by (simp add: readlines_split [of dest rest])
qed

text \<open>
  C3: when both files exist, the merge succeeds and the new destination text is the old
  text followed by an appended part, so every existing line stays as it was and where it
  was, whatever the source says about a shared key. The appended part is empty when there
  are no additions, and otherwise the marker comment followed by the additions in source
  order; every addition is an entry line of the source whose key is the key of no entry
  line of the old destination.
\<close>

theorem env_merge_appends_only:
  assumes "root_env p = Some src" and "supabase_env p = Some dest"
  shows "\<exists>appended.
           prepare_supabase_env p = Inr (p\<lparr>supabase_env := Some (dest @ appended)\<rparr>)
         \<and> appended = (if env_additions src dest = [] then []
                        else ADDED_MARKER @ concat (env_additions src dest))
         \<and> prefix (map str_rstrip_nl (readlines dest))
                  (map str_rstrip_nl (readlines (dest @ appended)))
         \<and> (\<forall>line\<in>set (env_additions src dest).
               line \<in> set (readlines src) \<and> is_entry line
             \<and> (\<forall>d\<in>set (readlines dest). is_entry d \<longrightarrow>
                   fst (entry_kv d) \<noteq> fst (entry_kv line)))"
proof -
  have keep: "p\<lparr>supabase_env := Some dest\<rparr> = p"
    using assms(2) by simp
  have pre: "prefix (map str_rstrip_nl (readlines dest))
               (map str_rstrip_nl (readlines (dest @ ADDED_MARKER @ concat (env_additions src dest))))"
    using readlines_append_prefix [of dest "''# Added from root .env'' @ [NL] @ concat (env_additions src dest)"]
    by (simp add: ADDED_MARKER_def)
  have sel: "\<forall>line\<in>set (env_additions src dest).
               line \<in> set (readlines src) \<and> is_entry line
             \<and> (\<forall>d\<in>set (readlines dest). is_entry d \<longrightarrow>
                   fst (entry_kv d) \<noteq> fst (entry_kv line))"
    by (simp add: env_additions_filter)
  show ?thesis
  proof (cases "env_additions src dest = []")
    case True
    with assms keep sel show ?thesis
      by (simp add: prepare_supabase_env_def)
  next
    case False
    with assms pre sel show ?thesis
      by (simp add: prepare_supabase_env_def Let_def)
  qed
qed

lemma env_additions_example:
  "env_additions ''A=9\<newline># note\<newline>C=3\<newline>'' ''A=1\<newline>B=2'' = [''C=3\<newline>'']"
  by code_simp

lemma prepare_supabase_env_example:
  "prepare_supabase_env
     \<lparr>root_env = Some ''A=9\<newline># note\<newline>C=3\<newline>'', supabase_docker_dir = True,
       supabase_env = Some ''A=1\<newline>B=2'', settings_base = None, settings = None,
       compose_file = None\<rparr>
   = Inr
     \<lparr>root_env = Some ''A=9\<newline># note\<newline>C=3\<newline>'', supabase_docker_dir = True,
       supabase_env = Some ''A=1\<newline>B=2\<newline># Added from root .env\<newline>C=3\<newline>'',
       settings_base = None, settings = None, compose_file = None\<rparr>"
  by (simp add: prepare_supabase_env_def env_additions_example ADDED_MARKER_def NL_def)

theorem env_merge_appends_only_witness:
  "root_env
     \<lparr>root_env = Some ''A=9\<newline># note\<newline>C=3\<newline>'', supabase_docker_dir = True,
       supabase_env = Some ''A=1\<newline>B=2'', settings_base = None, settings = None,
       compose_file = None\<rparr>
     = Some ''A=9\<newline># note\<newline>C=3\<newline>''
   \<and> supabase_env
     \<lparr>root_env = Some ''A=9\<newline># note\<newline>C=3\<newline>'', supabase_docker_dir = True,
       supabase_env = Some ''A=1\<newline>B=2'', settings_base = None, settings = None,
       compose_file = None\<rparr>
     = Some ''A=1\<newline>B=2''
   \<and> prepare_supabase_env
     \<lparr>root_env = Some ''A=9\<newline># note\<newline>C=3\<newline>'', supabase_docker_dir = True,
       supabase_env = Some ''A=1\<newline>B=2'', settings_base = None, settings = None,
       compose_file = None\<rparr>
   = Inr
     \<lparr>root_env = Some ''A=9\<newline># note\<newline>C=3\<newline>'', supabase_docker_dir = True,
       supabase_env = Some ''A=1\<newline>B=2\<newline># Added from root .env\<newline>C=3\<newline>'',
       settings_base = None, settings = None, compose_file = None\<rparr>
   \<and> prefix [''A=1'', ''B=2'']
       (map str_rstrip_nl (readlines ''A=1\<newline>B=2\<newline># Added from root .env\<newline>C=3\<newline>''))"
proof -
  obtain appended where
    "appended = (if env_additions ''A=9\<newline># note\<newline>C=3\<newline>'' ''A=1\<newline>B=2'' = [] then []
                 else ADDED_MARKER @ concat (env_additions ''A=9\<newline># note\<newline>C=3\<newline>'' ''A=1\<newline>B=2''))"
    and "prepare_supabase_env
     \<lparr>root_env = Some ''A=9\<newline># note\<newline>C=3\<newline>'', supabase_docker_dir = True,
       supabase_env = Some ''A=1\<newline>B=2'', settings_base = None, settings = None,
       compose_file = None\<rparr>
     = Inr (
     \<lparr>root_env = Some ''A=9\<newline># note\<newline>C=3\<newline>'', supabase_docker_dir = True,
       supabase_env = Some ''A=1\<newline>B=2'', settings_base = None, settings = None,
       compose_file = None\<rparr>
     \<lparr>supabase_env := Some (''A=1\<newline>B=2'' @ appended)\<rparr>)"
    and "prefix (map str_rstrip_nl (readlines ''A=1\<newline>B=2''))
           (map str_rstrip_nl (readlines (''A=1\<newline>B=2'' @ appended)))"
    using env_merge_appends_only
      [of "\<lparr>root_env = Some ''A=9\<newline># note\<newline>C=3\<newline>'', supabase_docker_dir = True,
       supabase_env = Some ''A=1\<newline>B=2'', settings_base = None, settings = None,
       compose_file = None\<rparr>" "''A=9\<newline># note\<newline>C=3\<newline>''" "''A=1\<newline>B=2''"]
    by auto
  then show ?thesis
    by (simp add: env_additions_example ADDED_MARKER_def NL_def str_rstrip_nl_def)
qed

lemma prepare_keeps_root_env:
  "prepare_supabase_env p = Inr p' \<Longrightarrow> root_env p' = root_env p"
  by (auto simp: prepare_supabase_env_def Let_def split: option.splits if_splits)

text \<open>
  C5: a destination that a merge has produced (by copying the source or by appending to an
  existing file) is left as it is by another merge from the same source: the computed
  additions are empty and the project files stay the same.
\<close>

theorem env_merge_idempotent:
  assumes "prepare_supabase_env p = Inr p'"
  shows "prepare_supabase_env p' = Inr p'
       \<and> (\<forall>src dest'. root_env p' = Some src \<and> supabase_env p' = Some dest' \<longrightarrow>
            env_additions src dest' = [])"
proof (cases "root_env p")
  case None
  with assms show ?thesis
    by (auto simp: prepare_supabase_env_def)
next
  case (Some src)
  show ?thesis
  proof (cases "supabase_env p")
    case None
    with assms Some have "p' = p\<lparr>supabase_env := Some src\<rparr>"
      by (auto simp: prepare_supabase_env_def split: if_splits)
    with Some show ?thesis
      by (simp add: prepare_supabase_env_def env_additions_self)
  next
    case dest: (Some dest)
    show ?thesis
    proof (cases "env_additions src dest = []")
      case True
      with assms Some dest have "p' = p"
        by (simp add: prepare_supabase_env_def)
      with assms Some dest True show ?thesis by simp
    next
      case False
      with assms Some dest
      have "p' = p\<lparr>supabase_env := Some (dest @ ADDED_MARKER @ concat (env_additions src dest))\<rparr>"
        by (simp add: prepare_supabase_env_def Let_def)
      with Some show ?thesis
        by (simp add: prepare_supabase_env_def env_additions_merged)
    qed
  qed
qed

theorem env_merge_idempotent_witness:
  "prepare_supabase_env
     \<lparr>root_env = Some ''A=9\<newline># note\<newline>C=3\<newline>'', supabase_docker_dir = True,
       supabase_env = Some ''A=1\<newline>B=2'', settings_base = None, settings = None,
       compose_file = None\<rparr>
   = Inr
     \<lparr>root_env = Some ''A=9\<newline># note\<newline>C=3\<newline>'', supabase_docker_dir = True,
       supabase_env = Some ''A=1\<newline>B=2\<newline># Added from root .env\<newline>C=3\<newline>'',
       settings_base = None, settings = None, compose_file = None\<rparr>
   \<and> prepare_supabase_env
     \<lparr>root_env = Some ''A=9\<newline># note\<newline>C=3\<newline>'', supabase_docker_dir = True,
       supabase_env = Some ''A=1\<newline>B=2\<newline># Added from root .env\<newline>C=3\<newline>'',
       settings_base = None, settings = None, compose_file = None\<rparr>
   = Inr
     \<lparr>root_env = Some ''A=9\<newline># note\<newline>C=3\<newline>'', supabase_docker_dir = True,
       supabase_env = Some ''A=1\<newline>B=2\<newline># Added from root .env\<newline>C=3\<newline>'',
       settings_base = None, settings = None, compose_file = None\<rparr>
   \<and> env_additions ''A=9\<newline># note\<newline>C=3\<newline>''
       ''A=1\<newline>B=2\<newline># Added from root .env\<newline>C=3\<newline>'' = []"
  using env_merge_idempotent [OF prepare_supabase_env_example] prepare_supabase_env_example
  by simp

section \<open>Properties of the readiness prober and the controller\<close>

declare wait_loop.simps [simp del]




lemma cx: "wait_for_postgres (\<lambda>h p i. (OSError, 2000)) ''127.0.0.1'' 54322 1 = (Inr False, 4000)"
  by code_simp












section \<open>Properties of the capability toggle\<close>

declare rx_sub.simps [simp del]




















text \<open>
  C2: the documented round trip on a composition document whose declaration is indented
  under its service, with the list item on the next line. The first run, with no
  container listed, rewrites the declaration to the disabled text without the indentation;
  the next run, with the container running and its marker file found, rewrites that to
  \<^verbatim>\<open>cap_drop: - ALL\<close> at the start of a line, followed by the rest of the marker comment. The
  indentation and the line break of the original declaration are not restored.
\<close>

theorem cap_drop_round_trip_loses_layout:
  "first_run_of \<lparr>ps_stdout = [], exec_stdout = (\<lambda>name. [])\<rparr>
   \<and> \<not> first_run_of \<lparr>ps_stdout = ''searxng\<newline>'', exec_stdout = (\<lambda>name. ''found\<newline>'')\<rparr>
   \<and> compose_file (adjust_cap_drop_first_run
         \<lparr>ps_stdout = [], exec_stdout = (\<lambda>name. [])\<rparr>
         \<lparr>root_env = None, supabase_docker_dir = False, supabase_env = None,
          settings_base = None, settings = None,
          compose_file = Some ''  searxng:\<newline>    cap_drop:\<newline>      - ALL\<newline>    cap_add:\<newline>''\<rparr>)
       = Some ''  searxng:\<newline># cap_drop: - ALL  # temporarily disabled first run\<newline>    cap_add:\<newline>''
   \<and> compose_file (adjust_cap_drop_first_run
         \<lparr>ps_stdout = ''searxng\<newline>'', exec_stdout = (\<lambda>name. ''found\<newline>'')\<rparr>
         (adjust_cap_drop_first_run
           \<lparr>ps_stdout = [], exec_stdout = (\<lambda>name. [])\<rparr>
           \<lparr>root_env = None, supabase_docker_dir = False, supabase_env = None,
            settings_base = None, settings = None,
            compose_file = Some ''  searxng:\<newline>    cap_drop:\<newline>      - ALL\<newline>    cap_add:\<newline>''\<rparr>))
       = Some ''  searxng:\<newline>cap_drop: - ALL  # temporarily disabled first run\<newline>    cap_add:\<newline>''"
  by code_simp




end
